theory Spec2Isabelle
  imports Main "HOL-Library.Sublist"
begin

section \<open>The cleanup command of koh\<close>

text \<open>
  The source is the Go file that defines \<open>cleanupCmd\<close>: the functions
  \<open>extractWorkTreeName\<close> (lines 32-43) and \<open>runCleanup\<close> (lines 45-155).
  \<open>runCleanup\<close> computes no value of interest: it calls other packages in an order that
  depends on what they answer, and returns an error or nil. The embedding therefore
  returns the list of calls the function makes, in order, next to its error result.
  What the other packages answer is a parameter: the record \<open>env\<close>.
\<close>

subsection \<open>Errors\<close>

text \<open>
  A Go error made by \<open>fmt.Errorf("text")\<close> is \<open>Err text\<close>; one made by
  \<open>fmt.Errorf("text: %w", err)\<close> is \<open>Wrap text err\<close>. \<open>errorString\<close> is the method
  \<open>Error()\<close>, which the verb \<open>%v\<close> prints.
\<close>

datatype err = Err string | Wrap string err

fun errorString :: "err \<Rightarrow> string" where
  "errorString (Err s) = s"
| "errorString (Wrap s e) = s @ '': '' @ errorString e"

subsection \<open>Paths: Go's path/filepath on Unix\<close>

text \<open>
  \<open>runCleanup\<close> calls \<open>filepath.Base\<close>, \<open>Join\<close>, \<open>Abs\<close> and \<open>Rel\<close> and
  \<open>strings.HasPrefix\<close>. They are given here for Unix (separator \<open>/\<close>, no volume
  names), by path elements: \<open>Clean\<close> drops empty elements and \<open>.\<close>, lets \<open>..\<close> cancel
  the element before it, and drops \<open>..\<close> at the root.
\<close>

fun splitOn :: "char \<Rightarrow> string \<Rightarrow> string list" where
  "splitOn c [] = [[]]"
| "splitOn c (x # xs) =
     (if x = c then [] # splitOn c xs
      else (case splitOn c xs of [] \<Rightarrow> [[x]] | w # ws \<Rightarrow> (x # w) # ws))"

definition elems :: "string \<Rightarrow> string list" where
  "elems p = filter (\<lambda>s. s \<noteq> []) (splitOn (CHR ''/'') p)"

fun joinSep :: "string list \<Rightarrow> string" where
  "joinSep [] = []"
| "joinSep [x] = x"
| "joinSep (x # y # ys) = x @ ''/'' @ joinSep (y # ys)"

definition filepath_IsAbs :: "string \<Rightarrow> bool" where
  "filepath_IsAbs p = (case p of [] \<Rightarrow> False | c # _ \<Rightarrow> c = CHR ''/'')"

text \<open>
  \<open>cleanElems rooted st cs\<close>: \<open>st\<close> is the stack of elements kept so far, last first.
  \<open>cleanParts p\<close> are the elements of the cleaned path.
\<close>

fun cleanElems :: "bool \<Rightarrow> string list \<Rightarrow> string list \<Rightarrow> string list" where
  "cleanElems rooted st [] = rev st"
| "cleanElems rooted st (c # cs) =
     (if c = ''.'' then cleanElems rooted st cs
      else if c = ''..'' then
        (case st of
           [] \<Rightarrow> if rooted then cleanElems rooted [] cs else cleanElems rooted [c] cs
         | t # ts \<Rightarrow> if t = ''..'' then cleanElems rooted (c # st) cs
                     else cleanElems rooted ts cs)
      else cleanElems rooted (c # st) cs)"

definition cleanParts :: "string \<Rightarrow> string list" where
  "cleanParts p = cleanElems (filepath_IsAbs p) [] (elems p)"

definition filepath_Clean :: "string \<Rightarrow> string" where
  "filepath_Clean p =
     (let s = (if filepath_IsAbs p then ''/'' else []) @ joinSep (cleanParts p)
      in if s = [] then ''.'' else s)"

text \<open>\<open>Join\<close> skips leading empty elements, joins the rest with \<open>/\<close> and cleans.\<close>

fun filepath_Join :: "string list \<Rightarrow> string" where
  "filepath_Join [] = []"
| "filepath_Join (x # xs) =
     (if x = [] then filepath_Join xs else filepath_Clean (joinSep (x # xs)))"

text \<open>
  \<open>Base\<close>: the last element of the path, after trailing slashes are removed; \<open>.\<close> for the
  empty path and \<open>/\<close> for a path of slashes only.
\<close>

definition filepath_Base :: "string \<Rightarrow> string" where
  "filepath_Base p =
     (if p = [] then ''.''
      else let q = dropWhile (\<lambda>c. c = CHR ''/'') (rev p);
               b = rev (takeWhile (\<lambda>c. c \<noteq> CHR ''/'') q)
           in if b = [] then ''/'' else b)"

definition strings_HasPrefix :: "string \<Rightarrow> string \<Rightarrow> bool" where
  "strings_HasPrefix s pre = prefix pre s"

text \<open>\<open>dropCommon\<close>: the two lists after their longest common prefix.\<close>

fun dropCommon :: "string list \<Rightarrow> string list \<Rightarrow> string list \<times> string list" where
  "dropCommon (b # bs) (t # ts) = (if b = t then dropCommon bs ts else (b # bs, t # ts))"
| "dropCommon bs ts = (bs, ts)"

text \<open>
  \<open>Rel basepath targpath\<close>: both paths are cleaned; equal paths give \<open>.\<close>; a rooted and
  an unrooted path cannot be related; otherwise the common leading elements are dropped,
  each element left of the base becomes \<open>..\<close>, and the elements left of the target
  follow. A base that still begins with \<open>..\<close> cannot be climbed out of lexically.
  \<open>runCleanup\<close> passes two results of \<open>Abs\<close>, which are rooted and clean whenever
  \<open>os.Getwd\<close> returns a rooted path, as it is documented to do.
\<close>

definition filepath_Rel :: "string \<Rightarrow> string \<Rightarrow> err + string" where
  "filepath_Rel basepath targpath =
     (let cannot = Err (''Rel: can't make '' @ targpath @ '' relative to '' @ basepath)
      in if filepath_Clean targpath = filepath_Clean basepath then Inr ''.''
         else if filepath_IsAbs basepath \<noteq> filepath_IsAbs targpath then Inl cannot
         else (case dropCommon (cleanParts basepath) (cleanParts targpath) of
                 (b, t) \<Rightarrow>
                   if b \<noteq> [] \<and> hd b = ''..'' then Inl cannot
                   else Inr (joinSep (map (\<lambda>_. ''..'') b @ t))))"

subsection \<open>The collaborators\<close>

text \<open>
  \<open>os.Stat\<close> followed by \<open>os.IsNotExist\<close> distinguishes three outcomes: no error, the
  error "does not exist", any other error.
\<close>

datatype stat_result = StatOk | StatNotExist | StatOther err

text \<open>
  What the packages \<open>git\<close>, \<open>validation\<close>, \<open>tmux\<close> and \<open>os\<close> answer during one run. Their
  code is not part of the command; every field is the result of the call of that name, as
  a function of its arguments. An \<open>err option\<close> is Go's \<open>error\<close> (\<open>None\<close> is nil).
\<close>

record env =
  isInWorktree :: bool
  getCurrentWorktreePath :: "err + string"
  validateWorktreeName :: "string \<Rightarrow> err option"
  getMainRepoRoot :: "err + string"
  stat :: "string \<Rightarrow> stat_result"
  getwd :: "err + string"
  chdir :: "string \<Rightarrow> err option"
  removeWorktree :: "string \<Rightarrow> err option"
  removeAll :: "string \<Rightarrow> err option"
  isInTmux :: bool
  getRepoName :: "err + string"
  closeWindow :: "string \<Rightarrow> string \<Rightarrow> err option"

text \<open>
  The calls a run makes, with their arguments, in the order it makes them.
  \<open>Fmt_Print line\<close> is one line written by \<open>fmt.Printf\<close> or \<open>fmt.Println\<close> (every
  format of the source ends in a newline, which is left out). \<open>Signals_cleanup\<close> is the
  deferred call of the function that \<open>SetupCancellableContext\<close> returned.
\<close>

datatype event =
    Git_IsInWorktree
  | Git_GetCurrentWorktreePath
  | Filepath_Base string
  | Validation_ValidateWorktreeName string
  | Signals_SetupCancellableContext
  | Signals_cleanup
  | Git_GetMainRepoRoot
  | Filepath_Join "string list"
  | Os_Stat string
  | Os_Getwd
  | Filepath_Abs string
  | Filepath_Rel string string
  | Os_Chdir string
  | Git_RemoveWorktreeWithContext string
  | Os_RemoveAll string
  | Tmux_IsInTmux
  | Git_GetRepoName
  | Tmux_CloseWindow string string
  | Fmt_Print string

text \<open>
  \<open>filepath.Abs\<close> on Unix: a rooted path is cleaned, another is joined to \<open>os.Getwd()\<close>
  (this inner call of \<open>os.Getwd\<close> is part of the event \<open>Filepath_Abs\<close>).
\<close>

definition filepath_Abs :: "env \<Rightarrow> string \<Rightarrow> err + string" where
  "filepath_Abs e p =
     (if filepath_IsAbs p then Inr (filepath_Clean p)
      else (case getwd e of Inl er \<Rightarrow> Inl er | Inr wd \<Rightarrow> Inr (filepath_Join [wd, p])))"

subsection \<open>extractWorkTreeName (lines 32-43)\<close>

definition extractWorkTreeName :: "env \<Rightarrow> event list \<times> (err + string)" where
  "extractWorkTreeName e =
     (if \<not> isInWorktree e then ([Git_IsInWorktree], Inl (Err ''not in a worktree''))
      else (case getCurrentWorktreePath e of
              Inl er \<Rightarrow> ([Git_IsInWorktree, Git_GetCurrentWorktreePath],
                          Inl (Wrap ''failed to get current worktree path'' er))
            | Inr currentPath \<Rightarrow>
                ([Git_IsInWorktree, Git_GetCurrentWorktreePath, Filepath_Base currentPath],
                 Inr (filepath_Base currentPath))))"

subsection \<open>runCleanup (lines 45-155)\<close>

text \<open>Lines 51-63: the name is the argument, or else the name of the current worktree.\<close>

definition resolveName :: "env \<Rightarrow> string list \<Rightarrow> event list \<times> (err + string)" where
  "resolveName e args =
     (case args of
        [] \<Rightarrow>
          (case extractWorkTreeName e of
             (t, Inl er) \<Rightarrow> (t, Inl (Wrap ''failed to extract worktree name'' er))
           | (t, Inr worktreeName) \<Rightarrow>
               (t @ [Fmt_Print (''Detected current worktree: '' @ worktreeName)],
                Inr worktreeName))
      | a # _ \<Rightarrow> ([], Inr a))"

text \<open>Lines 83-89: the existence probe. Only "does not exist" clears \<open>worktreeExists\<close>.\<close>

definition probe :: "env \<Rightarrow> string \<Rightarrow> string \<Rightarrow> event list \<times> bool" where
  "probe e worktreeName worktreePath =
     (if stat e worktreePath = StatNotExist
      then ([Os_Stat worktreePath,
             Fmt_Print (''Warning: Worktree .koh/'' @ worktreeName @ '' not found''),
             Fmt_Print ''Will attempt to clean up tmux window only''], False)
      else ([Os_Stat worktreePath], True))"

text \<open>
  Lines 91-109: is the current directory the worktree or inside it? The result is the
  variable \<open>isInTargetWorktree\<close>, or the error of one of the three fallible calls.
\<close>

definition locate :: "env \<Rightarrow> string \<Rightarrow> event list \<times> (err + bool)" where
  "locate e worktreePath =
     (case getwd e of
        Inl er \<Rightarrow> ([Os_Getwd], Inl (Wrap ''failed to get current directory'' er))
      | Inr currentDir \<Rightarrow>
          (case filepath_Abs e currentDir of
             Inl er \<Rightarrow> ([Os_Getwd, Filepath_Abs currentDir],
                         Inl (Wrap ''failed to get absolute path'' er))
           | Inr currentPath \<Rightarrow>
               (case filepath_Abs e worktreePath of
                  Inl er \<Rightarrow> ([Os_Getwd, Filepath_Abs currentDir, Filepath_Abs worktreePath],
                              Inl (Wrap ''failed to get absolute worktree path'' er))
                | Inr absWorktreePath \<Rightarrow>
                    ([Os_Getwd, Filepath_Abs currentDir, Filepath_Abs worktreePath,
                      Filepath_Rel absWorktreePath currentPath],
                     Inr (case filepath_Rel absWorktreePath currentPath of
                            Inl er \<Rightarrow> False
                          | Inr rel \<Rightarrow> \<not> strings_HasPrefix rel ''..'')))))"

text \<open>Lines 111-118, Step 1: leave the worktree.\<close>

definition step1 :: "env \<Rightarrow> string \<Rightarrow> bool \<Rightarrow> event list \<times> err option" where
  "step1 e mainRepoRoot isInTargetWorktree =
     (if isInTargetWorktree then
        (case chdir e mainRepoRoot of
           Some er \<Rightarrow>
             ([Fmt_Print ''Running from within target worktree, switching to parent repository...'',
               Os_Chdir mainRepoRoot],
              Some (Wrap ''failed to change to parent directory'' er))
         | None \<Rightarrow>
             ([Fmt_Print ''Running from within target worktree, switching to parent repository...'',
               Os_Chdir mainRepoRoot,
               Fmt_Print (''Changed directory to: '' @ mainRepoRoot)], None))
      else ([], None))"

text \<open>Lines 120-133, Step 2: remove the git worktree, then what is left of its directory.\<close>

definition step2 :: "env \<Rightarrow> string \<Rightarrow> string \<Rightarrow> bool \<Rightarrow> event list" where
  "step2 e worktreeName worktreePath worktreeExists =
     (if worktreeExists then
        [Fmt_Print (''Removing git worktree: .koh/'' @ worktreeName),
         Git_RemoveWorktreeWithContext worktreePath]
        @ (case removeWorktree e worktreePath of
             Some er \<Rightarrow> [Fmt_Print (''Warning: Failed to remove worktree: '' @ errorString er)]
           | None \<Rightarrow> [Fmt_Print ''Worktree removed successfully''])
        @ [Os_RemoveAll worktreePath]
        @ (case removeAll e worktreePath of
             Some er \<Rightarrow>
               [Fmt_Print (''Warning: Failed to remove worktree directory: '' @ errorString er)]
           | None \<Rightarrow> [])
      else [])"

text \<open>Lines 135-151, Step 3: close the tmux window.\<close>

definition step3 :: "env \<Rightarrow> string \<Rightarrow> event list" where
  "step3 e worktreeName =
     (if isInTmux e then
        (case getRepoName e of
           Inl er \<Rightarrow>
             (let windowName = [] @ ''|'' @ worktreeName
              in [Tmux_IsInTmux, Git_GetRepoName,
                  Fmt_Print (''Warning: Failed to get repository name: '' @ errorString er),
                  Tmux_CloseWindow windowName worktreeName]
                 @ (case closeWindow e windowName worktreeName of
                      Some er' \<Rightarrow> [Fmt_Print (''Warning: '' @ errorString er')]
                    | None \<Rightarrow> [Fmt_Print ''Tmux window closed (switched to previous window)'']))
         | Inr repoName \<Rightarrow>
             (let windowName = repoName @ ''|'' @ worktreeName
              in [Tmux_IsInTmux, Git_GetRepoName, Tmux_CloseWindow windowName worktreeName]
                 @ (case closeWindow e windowName worktreeName of
                      Some er' \<Rightarrow> [Fmt_Print (''Warning: '' @ errorString er')]
                    | None \<Rightarrow> [Fmt_Print ''Tmux window closed (switched to previous window)''])))
      else [Tmux_IsInTmux, Fmt_Print ''Not in a tmux session, skipping tmux cleanup''])"

text \<open>Lines 120-154: Steps 2 and 3 and the final notice; nothing here returns early.\<close>

definition teardown :: "env \<Rightarrow> string \<Rightarrow> string \<Rightarrow> bool \<Rightarrow> event list" where
  "teardown e worktreeName worktreePath worktreeExists =
     step2 e worktreeName worktreePath worktreeExists
     @ step3 e worktreeName
     @ [Fmt_Print ''Cleanup complete!'']"

text \<open>Lines 74-154: what runs between the acquisition of the context and its release.\<close>

definition withContext :: "env \<Rightarrow> string \<Rightarrow> event list \<times> err option" where
  "withContext e worktreeName =
     (case getMainRepoRoot e of
        Inl er \<Rightarrow> ([Git_GetMainRepoRoot], Some (Wrap ''failed to get main repository root'' er))
      | Inr mainRepoRoot \<Rightarrow>
          (let worktreePath = filepath_Join [mainRepoRoot, ''.koh'', worktreeName];
               t1 = [Git_GetMainRepoRoot, Filepath_Join [mainRepoRoot, ''.koh'', worktreeName]]
           in case probe e worktreeName worktreePath of
                (t2, worktreeExists) \<Rightarrow>
                  (case locate e worktreePath of
                     (t3, Inl er) \<Rightarrow> (t1 @ t2 @ t3, Some er)
                   | (t3, Inr isInTargetWorktree) \<Rightarrow>
                       (case step1 e mainRepoRoot isInTargetWorktree of
                          (t4, Some er) \<Rightarrow> (t1 @ t2 @ t3 @ t4, Some er)
                        | (t4, None) \<Rightarrow>
                            (t1 @ t2 @ t3 @ t4
                             @ teardown e worktreeName worktreePath worktreeExists, None)))))"

text \<open>
  The whole function. \<open>goos\<close> is the constant \<open>runtime.GOOS\<close> of the build; \<open>args\<close> are
  the positional arguments (cobra admits at most one).
\<close>

definition runCleanup :: "string \<Rightarrow> env \<Rightarrow> string list \<Rightarrow> event list \<times> err option" where
  "runCleanup goos e args =
     (if goos = ''windows''
      then ([], Some (Err ''cleanup command is not supported on Windows''))
      else (case resolveName e args of
              (t0, Inl er) \<Rightarrow> (t0, Some er)
            | (t0, Inr worktreeName) \<Rightarrow>
                (case validateWorktreeName e worktreeName of
                   Some er \<Rightarrow> (t0 @ [Validation_ValidateWorktreeName worktreeName],
                               Some (Wrap ''invalid worktree name'' er))
                 | None \<Rightarrow>
                     (case withContext e worktreeName of
                        (t, r) \<Rightarrow>
                          (t0 @ [Validation_ValidateWorktreeName worktreeName,
                                 Signals_SetupCancellableContext]
                           @ t @ [Signals_cleanup], r)))))"

subsection \<open>Notions the properties are stated with\<close>

text \<open>
  \<open>insideTarget target dir\<close>: the directory \<open>dir\<close> is \<open>target\<close> or lies below it, that
  is, the elements of the cleaned \<open>target\<close> are the leading elements of the cleaned \<open>dir\<close>.
\<close>

definition insideTarget :: "string \<Rightarrow> string \<Rightarrow> bool" where
  "insideTarget target dir = prefix (cleanParts target) (cleanParts dir)"

text \<open>
  A run reaches the teardown phase (line 120) when it takes none of the returns before
  it: the platform is supported, a name is resolved and valid, the repository root is
  found, the current directory is located, and the change of directory, if there is one,
  succeeds.
\<close>

definition reachesTeardown :: "string \<Rightarrow> env \<Rightarrow> string list \<Rightarrow> bool" where
  "reachesTeardown goos e args =
     (goos \<noteq> ''windows'' \<and>
      (case snd (resolveName e args) of
         Inl er \<Rightarrow> False
       | Inr worktreeName \<Rightarrow>
           validateWorktreeName e worktreeName = None \<and>
           (case getMainRepoRoot e of
              Inl er \<Rightarrow> False
            | Inr mainRepoRoot \<Rightarrow>
                (case snd (locate e (filepath_Join [mainRepoRoot, ''.koh'', worktreeName])) of
                   Inl er \<Rightarrow> False
                 | Inr isInTargetWorktree \<Rightarrow>
                     snd (step1 e mainRepoRoot isInTargetWorktree) = None))))"

text \<open>The lines a run prints, in order.\<close>

fun printed :: "event list \<Rightarrow> string list" where
  "printed [] = []"
| "printed (Fmt_Print s # evs) = s # printed evs"
| "printed (ev # evs) = printed evs"

text \<open>
  Modelled from the spec: \<open>validation.ValidateWorktreeName\<close> is not among the sources.
  The spec has it fail for the empty identifier and for one that contains a path
  separator or the sequence \<open>..\<close> (its allow-list of characters is not given). The example
  environments below use it; the theorems hold for every validator.
\<close>

fun hasDotDot :: "string \<Rightarrow> bool" where
  "hasDotDot (a # b # cs) = ((a = CHR ''.'' \<and> b = CHR ''.'') \<or> hasDotDot (b # cs))"
| "hasDotDot cs = False"

definition validateWorktreeName_spec :: "string \<Rightarrow> err option" where
  "validateWorktreeName_spec n =
     (if n = [] \<or> CHR ''/'' \<in> set n \<or> hasDotDot n
      then Some (Err ''invalid worktree name'') else None)"

text \<open>
  An example environment: the repository is \<open>/repo\<close>, named \<open>myrepo\<close>; the command
  is started in \<open>/repo\<close> inside a tmux session; every call succeeds.
\<close>

definition exampleEnv :: env where
  "exampleEnv =
     \<lparr> isInWorktree = False,
       getCurrentWorktreePath = Inl (Err ''not a worktree''),
       validateWorktreeName = validateWorktreeName_spec,
       getMainRepoRoot = Inr ''/repo'',
       stat = (\<lambda>p. StatOk),
       getwd = Inr ''/repo'',
       chdir = (\<lambda>p. None),
       removeWorktree = (\<lambda>p. None),
       removeAll = (\<lambda>p. None),
       isInTmux = True,
       getRepoName = Inr ''myrepo'',
       closeWindow = (\<lambda>w n. None) \<rparr>"

definition failingStepsEnv :: env where
  "failingStepsEnv =
     exampleEnv\<lparr> removeWorktree := (\<lambda>p. Some (Err ''worktree is dirty'')),
                  removeAll := (\<lambda>p. Some (Err ''permission denied'')),
                  getRepoName := Inl (Err ''no remote''),
                  closeWindow := (\<lambda>w n. Some (Err ''window not found'')) \<rparr>"

text \<open>Variants of the example: what one collaborator answers is changed.\<close>

definition absentEnv :: env where
  "absentEnv = exampleEnv\<lparr> stat := (\<lambda>p. StatNotExist) \<rparr>"

definition absentNoCwdEnv :: env where
  "absentNoCwdEnv =
     exampleEnv\<lparr> stat := (\<lambda>p. StatNotExist),
                  getwd := Inl (Err ''getwd: no such file or directory'') \<rparr>"

definition statDeniedEnv :: env where
  "statDeniedEnv = exampleEnv\<lparr> stat := (\<lambda>p. StatOther (Err ''permission denied'')) \<rparr>"

definition statDeniedNoCwdEnv :: env where
  "statDeniedNoCwdEnv =
     exampleEnv\<lparr> stat := (\<lambda>p. StatOther (Err ''permission denied'')),
                  getwd := Inl (Err ''getwd: no such file or directory'') \<rparr>"

definition dotdotEnv :: env where
  "dotdotEnv = exampleEnv\<lparr> getwd := Inr ''/repo/.koh/feat/..cache'' \<rparr>"

text \<open>The command is started in a subdirectory of the worktree \<open>feat\<close>.\<close>

definition insideEnv :: env where
  "insideEnv = exampleEnv\<lparr> getwd := Inr ''/repo/.koh/feat/src'' \<rparr>"

text \<open>Kinds of calls.\<close>

fun isVcsRemoval :: "event \<Rightarrow> bool" where
  "isVcsRemoval (Git_RemoveWorktreeWithContext p) = True"
| "isVcsRemoval ev = False"

fun isResidualRemoval :: "event \<Rightarrow> bool" where
  "isResidualRemoval (Os_RemoveAll p) = True"
| "isResidualRemoval ev = False"

fun isCloseWindow :: "event \<Rightarrow> bool" where
  "isCloseWindow (Tmux_CloseWindow w n) = True"
| "isCloseWindow ev = False"

fun isChdir :: "event \<Rightarrow> bool" where
  "isChdir (Os_Chdir p) = True"
| "isChdir ev = False"

text \<open>The calls that only Steps 2 and 3 make.\<close>

fun isTeardownCall :: "event \<Rightarrow> bool" where
  "isTeardownCall (Git_RemoveWorktreeWithContext p) = True"
| "isTeardownCall (Os_RemoveAll p) = True"
| "isTeardownCall Tmux_IsInTmux = True"
| "isTeardownCall Git_GetRepoName = True"
| "isTeardownCall (Tmux_CloseWindow w n) = True"
| "isTeardownCall ev = False"

text \<open>The calls of a run before line 120, when it gets that far.\<close>

definition beforeTeardown :: "env \<Rightarrow> string list \<Rightarrow> string \<Rightarrow> string \<Rightarrow> event list" where
  "beforeTeardown e args worktreeName mainRepoRoot =
     (let worktreePath = filepath_Join [mainRepoRoot, ''.koh'', worktreeName]
      in fst (resolveName e args)
         @ [Validation_ValidateWorktreeName worktreeName, Signals_SetupCancellableContext,
            Git_GetMainRepoRoot, Filepath_Join [mainRepoRoot, ''.koh'', worktreeName]]
         @ fst (probe e worktreeName worktreePath)
         @ fst (locate e worktreePath)
         @ fst (step1 e mainRepoRoot (snd (locate e worktreePath) = Inr True)))"

declare filepath_Join.simps [simp del]

section \<open>Lemmas on paths\<close>

lemma splitOn_not_Nil: "splitOn c s \<noteq> []"
  by (induction s) (auto split: list.splits)

lemma splitOn_no_sep: "x \<in> set (splitOn c s) \<Longrightarrow> c \<notin> set x"
  by (induction s arbitrary: x) (auto split: list.splits if_splits)

lemma splitOn_plain: "c \<notin> set x \<Longrightarrow> splitOn c x = [x]"
  by (induction x) auto

lemma splitOn_append: "c \<notin> set x \<Longrightarrow> splitOn c (x @ c # rest) = x # splitOn c rest"
  by (induction x) (auto split: list.splits)

lemma elems_joinSep:
  "\<forall>x \<in> set xs. x \<noteq> [] \<and> CHR ''/'' \<notin> set x \<Longrightarrow> elems (joinSep xs) = xs"
proof (induction xs rule: joinSep.induct)
  case 1
  show ?case by (simp add: elems_def)
next
  case (2 x)
  then show ?case by (simp add: elems_def splitOn_plain)
next
  case (3 x y ys)
  then have "elems (joinSep (y # ys)) = y # ys" by simp
  moreover have "splitOn (CHR ''/'') (x @ CHR ''/'' # joinSep (y # ys)) = x # splitOn (CHR ''/'') (joinSep (y # ys))"
    using 3 by (intro splitOn_append) simp
  ultimately show ?case using 3 by (simp add: elems_def)
qed

lemma elems_wf: "x \<in> set (elems p) \<Longrightarrow> x \<noteq> [] \<and> CHR ''/'' \<notin> set x"
  by (auto simp: elems_def dest: splitOn_no_sep)

lemma cleanElems_subset: "set (cleanElems r st cs) \<subseteq> set st \<union> set cs"
  by (induction r st cs rule: cleanElems.induct) (auto split: list.splits if_splits)

lemma cleanElems_no_dot: "''.'' \<notin> set st \<Longrightarrow> ''.'' \<notin> set (cleanElems r st cs)"
  by (induction r st cs rule: cleanElems.induct) (auto split: list.splits if_splits)

lemma cleanParts_wf: "x \<in> set (cleanParts p) \<Longrightarrow> x \<noteq> [] \<and> CHR ''/'' \<notin> set x \<and> x \<noteq> ''.''"
  using cleanElems_subset [of "filepath_IsAbs p" "[]" "elems p"]
        cleanElems_no_dot [of "[]" "filepath_IsAbs p" "elems p"] elems_wf [of x p]
  by (auto simp: cleanParts_def)

lemma elems_joinSep_cleanParts: "elems (joinSep (cleanParts p)) = cleanParts p"
  by (rule elems_joinSep) (use cleanParts_wf in blast)


lemma joinSep_Nil_iff: "\<forall>x \<in> set xs. x \<noteq> [] \<Longrightarrow> joinSep xs = [] \<longleftrightarrow> xs = []"
  by (induction xs rule: joinSep.induct) auto

lemma elems_Clean: "(if filepath_Clean p = ''.'' then [] else elems (filepath_Clean p)) = cleanParts p"
proof -
  let ?a = "joinSep (cleanParts p)"
  have ea: "elems ?a = cleanParts p" by (rule elems_joinSep_cleanParts)
  have nil: "?a = [] \<longleftrightarrow> cleanParts p = []"
    by (rule joinSep_Nil_iff) (use cleanParts_wf in blast)
  have nodot: "?a \<noteq> ''.''"
  proof
    assume "?a = ''.''"
    then have "elems ?a = [''.'']" by (simp add: elems_def)
    with ea have "cleanParts p = [''.'']" by simp
    then have "''.'' \<in> set (cleanParts p)" by simp
    then show False using cleanParts_wf by blast
  qed
  have slash: "elems (CHR ''/'' # ?a) = elems ?a" by (simp add: elems_def)
  show ?thesis
  proof (cases "filepath_IsAbs p")
    case True
    then show ?thesis using ea slash by (simp add: filepath_Clean_def Let_def)
  next
    case False
    then show ?thesis using ea nil nodot by (auto simp: filepath_Clean_def Let_def)
  qed
qed

lemma Clean_eq_cleanParts: "filepath_Clean c = filepath_Clean t \<Longrightarrow> cleanParts c = cleanParts t"
proof -
  assume eq: "filepath_Clean c = filepath_Clean t"
  have "cleanParts c = (if filepath_Clean c = ''.'' then [] else elems (filepath_Clean c))"
    by (rule elems_Clean [symmetric])
  also have "\<dots> = (if filepath_Clean t = ''.'' then [] else elems (filepath_Clean t))"
    by (simp only: eq)
  also have "\<dots> = cleanParts t" by (rule elems_Clean)
  finally show ?thesis .
qed

lemma dropCommon_nonempty: "\<not> prefix bs ts \<Longrightarrow> fst (dropCommon bs ts) \<noteq> []"
  by (induction bs ts rule: dropCommon.induct) auto

lemma joinSep_Cons_prefix: "prefix x (joinSep (x # xs))"
  by (cases xs) auto

lemma rel_outside:
  assumes "\<not> insideTarget t c"
  shows "case filepath_Rel t c of Inl er \<Rightarrow> True | Inr rel \<Rightarrow> strings_HasPrefix rel ''..''"
proof -
  obtain b r where d: "dropCommon (cleanParts t) (cleanParts c) = (b, r)"
    by (cases "dropCommon (cleanParts t) (cleanParts c)")
  from assms have ne: "b \<noteq> []"
    using dropCommon_nonempty [of "cleanParts t" "cleanParts c"] d
    by (simp add: insideTarget_def)
  then obtain b0 bs where b: "b = b0 # bs" by (cases b) auto
  have neq: "filepath_Clean c \<noteq> filepath_Clean t"
    using assms Clean_eq_cleanParts [of c t] by (auto simp: insideTarget_def)
  show ?thesis
    using d b neq joinSep_Cons_prefix [of "''..''" "map (\<lambda>_. ''..'') bs @ r"]
    by (simp add: filepath_Rel_def strings_HasPrefix_def Let_def)
qed

section \<open>Lemmas on the phases of a run\<close>

lemma resolveName_calls:
  "ev \<in> set (fst (resolveName e args)) \<Longrightarrow> \<not> isTeardownCall ev \<and> \<not> isChdir ev"
  by (auto simp: resolveName_def extractWorkTreeName_def split: list.splits sum.splits if_splits)

lemma probe_calls:
  "ev \<in> set (fst (probe e n p)) \<Longrightarrow> \<not> isTeardownCall ev \<and> \<not> isChdir ev"
  by (auto simp: probe_def split: if_splits)

lemma snd_probe: "snd (probe e n p) = (stat e p \<noteq> StatNotExist)"
  by (simp add: probe_def)

lemma locate_calls:
  "ev \<in> set (fst (locate e p)) \<Longrightarrow> \<not> isTeardownCall ev \<and> \<not> isChdir ev"
  by (auto simp: locate_def split: sum.splits)

lemma step1_calls:
  "ev \<in> set (fst (step1 e root b)) \<Longrightarrow> \<not> isTeardownCall ev \<and> (isChdir ev \<longrightarrow> b \<and> ev = Os_Chdir root)"
  by (auto simp: step1_def split: option.splits if_splits)

lemma step1_False: "step1 e root False = ([], None)"
  by (simp add: step1_def)

lemma step2_calls: "ev \<in> set (step2 e n p ex) \<Longrightarrow> \<not> isChdir ev"
  by (auto simp: step2_def split: option.splits if_splits)

lemma step3_calls: "ev \<in> set (step3 e n) \<Longrightarrow> \<not> isChdir ev"
  by (auto simp: step3_def Let_def split: option.splits sum.splits if_splits)

lemma teardown_calls: "ev \<in> set (teardown e n p ex) \<Longrightarrow> \<not> isChdir ev"
  by (auto simp: teardown_def dest: step2_calls step3_calls)

lemma beforeTeardown_calls:
  "ev \<in> set (beforeTeardown e args n root) \<Longrightarrow> \<not> isTeardownCall ev"
  by (auto simp: beforeTeardown_def Let_def
           dest: resolveName_calls probe_calls locate_calls step1_calls)

lemma runCleanup_reached:
  assumes reach: "reachesTeardown goos e args"
    and name: "snd (resolveName e args) = Inr name"
    and root: "getMainRepoRoot e = Inr root"
  shows "runCleanup goos e args =
    (beforeTeardown e args name root
     @ teardown e name (filepath_Join [root, ''.koh'', name])
         (stat e (filepath_Join [root, ''.koh'', name]) \<noteq> StatNotExist)
     @ [Signals_cleanup], None)"
proof -
  let ?p = "filepath_Join [root, ''.koh'', name]"
  obtain t0 where r: "resolveName e args = (t0, Inr name)"
    using name by (cases "resolveName e args") auto
  from reach r root have g: "goos \<noteq> ''windows''" and v: "validateWorktreeName e name = None"
    by (auto simp: reachesTeardown_def)
  from reach r root obtain b where b: "snd (locate e ?p) = Inr b"
    and s: "snd (step1 e root b) = None"
    by (auto simp: reachesTeardown_def split: sum.splits)
  obtain t3 where l: "locate e ?p = (t3, Inr b)"
    using b by (cases "locate e ?p") auto
  obtain t4 where s1: "step1 e root b = (t4, None)"
    using s by (cases "step1 e root b") auto
  obtain t2 where pr: "probe e name ?p = (t2, stat e ?p \<noteq> StatNotExist)"
    using snd_probe [of e name ?p] by (cases "probe e name ?p") auto
  have s1': "step1 e root (b = True) = (t4, None)" using s1 by simp
  show ?thesis
    using g v r root l s1' pr
    by (simp add: runCleanup_def withContext_def beforeTeardown_def Let_def)
qed

lemma runCleanup_not_reached:
  assumes "\<not> reachesTeardown goos e args"
  shows "snd (runCleanup goos e args) \<noteq> None
    \<and> (\<forall>ev \<in> set (fst (runCleanup goos e args)). \<not> isTeardownCall ev)"
proof (cases "goos = ''windows''")
  case True
  then show ?thesis by (simp add: runCleanup_def)
next
  case g: False
  obtain t0 r where r: "resolveName e args = (t0, r)" by (cases "resolveName e args")
  have t0: "\<forall>ev \<in> set t0. \<not> isTeardownCall ev"
    using resolveName_calls [of _ e args] r by auto
  show ?thesis
  proof (cases r)
    case (Inl er)
    then show ?thesis using g r t0 by (simp add: runCleanup_def)
  next
    case (Inr name)
    show ?thesis
    proof (cases "validateWorktreeName e name")
      case (Some er)
      then show ?thesis using g r t0 Inr by (simp add: runCleanup_def)
    next
      case None
      show ?thesis
      proof (cases "getMainRepoRoot e")
        case (Inl er)
        then show ?thesis using g r t0 Inr None by (simp add: runCleanup_def withContext_def)
      next
        case root: (Inr root)
        let ?p = "filepath_Join [root, ''.koh'', name]"
        obtain t2 ex where pr: "probe e name ?p = (t2, ex)" by (cases "probe e name ?p")
        have t2: "\<forall>ev \<in> set t2. \<not> isTeardownCall ev"
          using probe_calls [of _ e name ?p] pr by auto
        obtain t3 l where l: "locate e ?p = (t3, l)" by (cases "locate e ?p")
        have t3: "\<forall>ev \<in> set t3. \<not> isTeardownCall ev"
          using locate_calls [of _ e ?p] l by auto
        show ?thesis
        proof (cases l)
          case (Inl er)
          then show ?thesis using g r t0 Inr None root pr t2 l t3
            by (auto simp: runCleanup_def withContext_def Let_def)
        next
          case b: (Inr b)
          obtain t4 s where s: "step1 e root b = (t4, s)" by (cases "step1 e root b")
          have t4: "\<forall>ev \<in> set t4. \<not> isTeardownCall ev"
            using step1_calls [of _ e root b] s by auto
          from assms g r Inr None root l b s obtain er where "s = Some er"
            by (auto simp: reachesTeardown_def)
          then show ?thesis using g r t0 Inr None root pr t2 l t3 b s t4
            by (auto simp: runCleanup_def withContext_def Let_def)
        qed
      qed
    qed
  qed
qed

lemma runCleanup_events:
  assumes "ev \<in> set (fst (runCleanup goos e args))"
  shows "ev \<in> set (fst (resolveName e args)) \<or> ev = Signals_SetupCancellableContext
    \<or> ev = Signals_cleanup \<or> ev = Git_GetMainRepoRoot
    \<or> (\<exists>name. snd (resolveName e args) = Inr name \<and>
         (ev = Validation_ValidateWorktreeName name \<or>
          (\<exists>root. getMainRepoRoot e = Inr root \<and>
             (ev = Filepath_Join [root, ''.koh'', name]
              \<or> ev \<in> set (fst (probe e name (filepath_Join [root, ''.koh'', name])))
              \<or> ev \<in> set (fst (locate e (filepath_Join [root, ''.koh'', name])))
              \<or> (\<exists>b. snd (locate e (filepath_Join [root, ''.koh'', name])) = Inr b \<and>
                    (ev \<in> set (fst (step1 e root b))
                     \<or> ev \<in> set (teardown e name (filepath_Join [root, ''.koh'', name])
                                   (stat e (filepath_Join [root, ''.koh'', name]) \<noteq> StatNotExist))))))))"
proof (cases "goos = ''windows''")
  case True
  then show ?thesis using assms by (simp add: runCleanup_def)
next
  case g: False
  obtain t0 r where r: "resolveName e args = (t0, r)" by (cases "resolveName e args")
  show ?thesis
  proof (cases r)
    case (Inl er)
    then show ?thesis using assms g r by (simp add: runCleanup_def)
  next
    case (Inr name)
    show ?thesis
    proof (cases "validateWorktreeName e name")
      case (Some er)
      then show ?thesis using assms g r Inr by (auto simp: runCleanup_def)
    next
      case None
      show ?thesis
      proof (cases "getMainRepoRoot e")
        case (Inl er)
        then show ?thesis using assms g r Inr None
          by (auto simp: runCleanup_def withContext_def)
      next
        case root: (Inr root)
        let ?p = "filepath_Join [root, ''.koh'', name]"
        obtain t2 where pr: "probe e name ?p = (t2, stat e ?p \<noteq> StatNotExist)"
          using snd_probe [of e name ?p] by (cases "probe e name ?p") auto
        obtain t3 l where l: "locate e ?p = (t3, l)" by (cases "locate e ?p")
        show ?thesis
        proof (cases l)
          case (Inl er)
          then show ?thesis using assms g r Inr None root pr l
            by (auto simp: runCleanup_def withContext_def Let_def)
        next
          case b: (Inr b)
          obtain t4 s where s: "step1 e root b = (t4, s)" by (cases "step1 e root b")
          show ?thesis
          proof (cases s)
            case None': None
            then show ?thesis using assms g r Inr None root pr l b s
              by (auto simp: runCleanup_def withContext_def Let_def)
          next
            case (Some er)
            then show ?thesis using assms g r Inr None root pr l b s
              by (auto simp: runCleanup_def withContext_def Let_def)
          qed
        qed
      qed
    qed
  qed
qed

lemma printed_append: "printed (xs @ ys) = printed xs @ printed ys"
  by (induction xs rule: printed.induct) auto

lemma step2_vcs_iff: "Git_RemoveWorktreeWithContext q \<in> set (step2 e n p ex) \<longleftrightarrow> ex \<and> q = p"
  by (auto simp: step2_def split: option.splits)

lemma step2_residual_iff: "Os_RemoveAll q \<in> set (step2 e n p ex) \<longleftrightarrow> ex \<and> q = p"
  by (auto simp: step2_def split: option.splits)

lemma step2_warn_vcs:
  "ex \<Longrightarrow> removeWorktree e p = Some er \<Longrightarrow>
   Fmt_Print (''Warning: Failed to remove worktree: '' @ errorString er) \<in> set (step2 e n p ex)"
  by (simp add: step2_def)

lemma step2_warn_residual:
  "ex \<Longrightarrow> removeAll e p = Some er \<Longrightarrow>
   Fmt_Print (''Warning: Failed to remove worktree directory: '' @ errorString er)
     \<in> set (step2 e n p ex)"
  by (simp add: step2_def)

lemma step2_only:
  "ev \<in> set (step2 e n p ex) \<Longrightarrow> \<not> isCloseWindow ev \<and> ev \<noteq> Git_GetRepoName"
  by (auto simp: step2_def split: option.splits if_splits)

lemma step3_close_iff:
  "Tmux_CloseWindow w m \<in> set (step3 e n) \<longleftrightarrow>
   isInTmux e \<and> m = n \<and> w = (case getRepoName e of Inl er \<Rightarrow> [] | Inr r \<Rightarrow> r) @ ''|'' @ n"
  by (auto simp: step3_def Let_def split: option.splits sum.splits)

lemma step3_repo_iff: "Git_GetRepoName \<in> set (step3 e n) \<longleftrightarrow> isInTmux e"
  by (auto simp: step3_def Let_def split: option.splits sum.splits)

lemma step3_warn_repo:
  "isInTmux e \<Longrightarrow> getRepoName e = Inl er \<Longrightarrow>
   Fmt_Print (''Warning: Failed to get repository name: '' @ errorString er) \<in> set (step3 e n)"
  by (simp add: step3_def Let_def)

lemma step3_warn_close:
  assumes "Tmux_CloseWindow w m \<in> set (step3 e n)" and "closeWindow e w m = Some er"
  shows "Fmt_Print (''Warning: '' @ errorString er) \<in> set (step3 e n)"
proof -
  from assms(1) have "isInTmux e" and "m = n"
    and "w = (case getRepoName e of Inl er \<Rightarrow> [] | Inr r \<Rightarrow> r) @ ''|'' @ n"
    by (auto simp: step3_close_iff)
  then show ?thesis using assms(2)
    by (cases "getRepoName e") (simp_all add: step3_def Let_def)
qed

lemma step3_only:
  "ev \<in> set (step3 e n) \<Longrightarrow> \<not> isVcsRemoval ev \<and> \<not> isResidualRemoval ev"
  by (auto simp: step3_def Let_def split: option.splits sum.splits if_splits)

lemma set_teardown:
  "set (teardown e n p ex) = set (step2 e n p ex) \<union> set (step3 e n) \<union> {Fmt_Print ''Cleanup complete!''}"
  by (auto simp: teardown_def)

lemma reaches_names:
  assumes "reachesTeardown goos e args"
  obtains name root where "snd (resolveName e args) = Inr name" and "getMainRepoRoot e = Inr root"
  using assms by (auto simp: reachesTeardown_def split: sum.splits)

lemma teardown_call_origin:
  assumes ev: "ev \<in> set (fst (runCleanup goos e args))" and td: "isTeardownCall ev"
  shows "reachesTeardown goos e args \<and>
    (\<exists>name root. snd (resolveName e args) = Inr name \<and> getMainRepoRoot e = Inr root \<and>
       ev \<in> set (teardown e name (filepath_Join [root, ''.koh'', name])
                   (stat e (filepath_Join [root, ''.koh'', name]) \<noteq> StatNotExist)))"
proof -
  have reach: "reachesTeardown goos e args"
    using runCleanup_not_reached [of goos e args] ev td by blast
  show ?thesis
    using runCleanup_events [OF ev] td reach
    by (auto dest: resolveName_calls probe_calls locate_calls step1_calls)
qed

lemma teardown_in_run:
  assumes "reachesTeardown goos e args"
    and "snd (resolveName e args) = Inr name" and "getMainRepoRoot e = Inr root"
  shows "set (teardown e name (filepath_Join [root, ''.koh'', name])
               (stat e (filepath_Join [root, ''.koh'', name]) \<noteq> StatNotExist))
         \<subseteq> set (fst (runCleanup goos e args))"
  by (auto simp: runCleanup_reached [OF assms])

lemma extractWorkTreeName_stat: "extractWorkTreeName (e\<lparr>stat := f\<rparr>) = extractWorkTreeName e"
  by (simp add: extractWorkTreeName_def)

lemma resolveName_stat: "resolveName (e\<lparr>stat := f\<rparr>) args = resolveName e args"
  by (simp add: resolveName_def extractWorkTreeName_stat cong: list.case_cong)

lemma filepath_Abs_stat: "filepath_Abs (e\<lparr>stat := f\<rparr>) p = filepath_Abs e p"
  by (simp add: filepath_Abs_def)

lemma locate_stat: "locate (e\<lparr>stat := f\<rparr>) p = locate e p"
  by (simp add: locate_def filepath_Abs_stat cong: sum.case_cong)

lemma step1_stat: "step1 (e\<lparr>stat := f\<rparr>) root b = step1 e root b"
  by (simp add: step1_def cong: if_cong option.case_cong)

lemma teardown_stat: "teardown (e\<lparr>stat := f\<rparr>) n p ex = teardown e n p ex"
  by (simp add: teardown_def step2_def step3_def cong: if_cong option.case_cong sum.case_cong)

lemma snd_withContext:
  "snd (withContext e n) =
     (case getMainRepoRoot e of
        Inl er \<Rightarrow> Some (Wrap ''failed to get main repository root'' er)
      | Inr root \<Rightarrow>
          (case snd (locate e (filepath_Join [root, ''.koh'', n])) of
             Inl er \<Rightarrow> Some er
           | Inr b \<Rightarrow> snd (step1 e root b)))"
  by (auto simp: withContext_def Let_def split: sum.splits prod.splits option.splits)

lemma snd_runCleanup:
  "snd (runCleanup goos e args) =
     (if goos = ''windows'' then Some (Err ''cleanup command is not supported on Windows'')
      else (case snd (resolveName e args) of
              Inl er \<Rightarrow> Some er
            | Inr n \<Rightarrow>
                (case validateWorktreeName e n of
                   Some er \<Rightarrow> Some (Wrap ''invalid worktree name'' er)
                 | None \<Rightarrow> snd (withContext e n))))"
  by (auto simp: runCleanup_def split: sum.splits prod.splits option.splits)

lemma snd_runCleanup_stat:
  "snd (runCleanup goos (e\<lparr>stat := f\<rparr>) args) = snd (runCleanup goos e args)"
  by (simp add: snd_runCleanup snd_withContext resolveName_stat locate_stat step1_stat
           cong: sum.case_cong option.case_cong)

lemma probe_in_run:
  assumes g: "goos \<noteq> ''windows''" and name: "snd (resolveName e args) = Inr name"
    and v: "validateWorktreeName e name = None" and root: "getMainRepoRoot e = Inr root"
  shows "set (fst (probe e name (filepath_Join [root, ''.koh'', name])))
         \<subseteq> set (fst (runCleanup goos e args))"
proof -
  let ?p = "filepath_Join [root, ''.koh'', name]"
  obtain t0 where r: "resolveName e args = (t0, Inr name)"
    using name by (cases "resolveName e args") auto
  obtain t2 ex where pr: "probe e name ?p = (t2, ex)" by (cases "probe e name ?p")
  obtain t3 l where l: "locate e ?p = (t3, l)" by (cases "locate e ?p")
  show ?thesis
  proof (cases l)
    case (Inl er)
    then show ?thesis using g r v root pr l
      by (auto simp: runCleanup_def withContext_def Let_def)
  next
    case (Inr b)
    obtain t4 s where s: "step1 e root b = (t4, s)" by (cases "step1 e root b")
    show ?thesis using g r v root pr l Inr s
      by (cases s) (auto simp: runCleanup_def withContext_def Let_def)
  qed
qed

lemma no_vcs_removal_when_absent:
  assumes name: "snd (resolveName e args) = Inr name" and root: "getMainRepoRoot e = Inr root"
    and absent: "stat e (filepath_Join [root, ''.koh'', name]) = StatNotExist"
    and ev: "ev \<in> set (fst (runCleanup goos e args))"
  shows "\<not> isVcsRemoval ev \<and> \<not> isResidualRemoval ev"
proof (cases "isTeardownCall ev")
  case True
  from teardown_call_origin [OF ev True] name root absent
  have "ev \<in> set (step3 e name) \<or> ev = Fmt_Print ''Cleanup complete!''"
    by (auto simp: set_teardown step2_def)
  then show ?thesis using step3_only [of ev e name] by auto
next
  case False
  then show ?thesis by (cases ev) auto
qed

lemma locate_outside:
  assumes dir: "getwd e = Inr dir" and cur: "filepath_Abs e dir = Inr cur"
    and target: "filepath_Abs e p = Inr target"
    and outside: "\<not> insideTarget target cur
       \<or> (\<exists>rel. filepath_Rel target cur = Inr rel \<and> strings_HasPrefix rel ''..'')"
  shows "snd (locate e p) = Inr False"
proof -
  have "case filepath_Rel target cur of Inl er \<Rightarrow> True | Inr rel \<Rightarrow> strings_HasPrefix rel ''..''"
    using outside rel_outside [of target cur] by auto
  then show ?thesis using dir cur target
    by (auto simp: locate_def split: sum.splits)
qed

lemma probe_other:
  "stat e p = StatOther er \<Longrightarrow> probe (e\<lparr>stat := (stat e)(p := StatOk)\<rparr>) n p = probe e n p"
  by (simp add: probe_def)

lemma relocation_precedes_teardown:
  assumes reach: "reachesTeardown goos e args"
    and name: "snd (resolveName e args) = Inr name" and root: "getMainRepoRoot e = Inr root"
    and inside: "snd (locate e (filepath_Join [root, ''.koh'', name])) = Inr True"
  shows "\<exists>pre post. fst (runCleanup goos e args) = pre @ Os_Chdir root # post
           \<and> (\<forall>ev \<in> set pre. \<not> isTeardownCall ev)"
proof -
  let ?p = "filepath_Join [root, ''.koh'', name]"
  from reach name root inside have ok: "chdir e root = None"
    by (auto simp: reachesTeardown_def step1_def split: option.splits)
  let ?pre = "fst (resolveName e args)
         @ [Validation_ValidateWorktreeName name, Signals_SetupCancellableContext,
            Git_GetMainRepoRoot, Filepath_Join [root, ''.koh'', name]]
         @ fst (probe e name ?p) @ fst (locate e ?p)
         @ [Fmt_Print ''Running from within target worktree, switching to parent repository...'']"
  let ?post = "Fmt_Print (''Changed directory to: '' @ root)
         # teardown e name ?p (stat e ?p \<noteq> StatNotExist) @ [Signals_cleanup]"
  have "fst (runCleanup goos e args) = ?pre @ Os_Chdir root # ?post"
    using inside ok
    by (simp add: runCleanup_reached [OF reach name root] beforeTeardown_def Let_def step1_def)
  moreover have "\<forall>ev \<in> set ?pre. \<not> isTeardownCall ev"
    by (auto dest: resolveName_calls probe_calls locate_calls)
  ultimately show ?thesis by blast
qed

text \<open>The calls of Steps 2 and 3, in order: they do not depend on what the earlier ones answered.\<close>

lemma filter_teardown_step2:
  "filter isTeardownCall (step2 e n p ex)
     = (if ex then [Git_RemoveWorktreeWithContext p, Os_RemoveAll p] else [])"
  by (simp add: step2_def split: option.splits)

lemma filter_teardown_step3:
  "filter isTeardownCall (step3 e n)
     = Tmux_IsInTmux #
       (if isInTmux e
        then [Git_GetRepoName,
              Tmux_CloseWindow ((case getRepoName e of Inl er \<Rightarrow> [] | Inr r \<Rightarrow> r) @ ''|'' @ n) n]
        else [])"
  by (simp add: step3_def Let_def split: option.splits sum.splits)

lemma filter_teardown_before: "filter isTeardownCall (beforeTeardown e args n root) = []"
  using beforeTeardown_calls [of _ e args n root] by (auto simp: filter_empty_conv)

lemma filter_teardown_run:
  assumes "reachesTeardown goos e args"
    and "snd (resolveName e args) = Inr name" and "getMainRepoRoot e = Inr root"
  shows "filter isTeardownCall (fst (runCleanup goos e args))
     = (if stat e (filepath_Join [root, ''.koh'', name]) \<noteq> StatNotExist
        then [Git_RemoveWorktreeWithContext (filepath_Join [root, ''.koh'', name]),
              Os_RemoveAll (filepath_Join [root, ''.koh'', name])]
        else [])
       @ Tmux_IsInTmux #
       (if isInTmux e
        then [Git_GetRepoName,
              Tmux_CloseWindow ((case getRepoName e of Inl er \<Rightarrow> [] | Inr r \<Rightarrow> r) @ ''|'' @ name) name]
        else [])"
  by (simp add: runCleanup_reached [OF assms] teardown_def filter_teardown_before
        filter_teardown_step2 filter_teardown_step3)

text \<open>
  Started in the subdirectory \<open>src\<close> of the worktree, the run leaves the worktree before
  it removes it.
\<close>

lemma relocation_from_subdirectory:
  "runCleanup ''linux'' insideEnv [''feat''] =
     ([Validation_ValidateWorktreeName ''feat'', Signals_SetupCancellableContext,
       Git_GetMainRepoRoot, Filepath_Join [''/repo'', ''.koh'', ''feat''],
       Os_Stat ''/repo/.koh/feat'', Os_Getwd,
       Filepath_Abs ''/repo/.koh/feat/src'', Filepath_Abs ''/repo/.koh/feat'',
       Filepath_Rel ''/repo/.koh/feat'' ''/repo/.koh/feat/src'',
       Fmt_Print ''Running from within target worktree, switching to parent repository...'',
       Os_Chdir ''/repo'', Fmt_Print ''Changed directory to: /repo'',
       Fmt_Print ''Removing git worktree: .koh/feat'',
       Git_RemoveWorktreeWithContext ''/repo/.koh/feat'',
       Fmt_Print ''Worktree removed successfully'',
       Os_RemoveAll ''/repo/.koh/feat'', Tmux_IsInTmux, Git_GetRepoName,
       Tmux_CloseWindow ''myrepo|feat'' ''feat'',
       Fmt_Print ''Tmux window closed (switched to previous window)'',
       Fmt_Print ''Cleanup complete!'', Signals_cleanup], None)"
  by code_simp

section \<open>The claims\<close>

text \<open>
  Claim C7. On Windows \<open>runCleanup\<close> returns the error "not supported" as its first
  action: the run makes no call at all, so it resolves no target, validates nothing,
  acquires no context and touches neither the file system, nor git, nor tmux.
\<close>

theorem windows_is_refused_first:
  "runCleanup ''windows'' e args
     = ([], Some (Err ''cleanup command is not supported on Windows''))"
  by (simp add: runCleanup_def)

text \<open>
  Claim C3. On a supported platform, when the identifier given as argument fails
  validation, \<open>runCleanup\<close> returns the error "invalid worktree name" wrapping the
  validator's error, and the call of the validator is the only call of the run: no path
  is joined and no call to git, the file system or tmux is made.
\<close>

theorem invalid_name_is_rejected_at_once:
  assumes "goos \<noteq> ''windows''" and "validateWorktreeName e name = Some er"
  shows "runCleanup goos e (name # rest)
     = ([Validation_ValidateWorktreeName name], Some (Wrap ''invalid worktree name'' er))"
  using assms by (simp add: runCleanup_def resolveName_def)

theorem invalid_name_is_rejected_at_once_witness:
  "runCleanup ''linux'' exampleEnv [''../../etc'']
     = ([Validation_ValidateWorktreeName ''../../etc''],
        Some (Wrap ''invalid worktree name'' (Err ''invalid worktree name'')))"
  using invalid_name_is_rejected_at_once
          [of "''linux''" exampleEnv "''../../etc''" "Err ''invalid worktree name''" "[]"]
  by (simp add: exampleEnv_def validateWorktreeName_spec_def)

text \<open>
  Claim C6. On a supported platform, a run without argument whose current directory is
  in no worktree returns the error "not in a worktree" (wrapped as "failed to extract
  worktree name"), and the question \<open>git.IsInWorktree()\<close> is its only call: nothing is
  validated, no path is built, nothing is removed and no window is closed.
\<close>

theorem not_in_worktree_is_fatal_first:
  assumes "goos \<noteq> ''windows''" and "\<not> isInWorktree e"
  shows "runCleanup goos e []
     = ([Git_IsInWorktree],
        Some (Wrap ''failed to extract worktree name'' (Err ''not in a worktree'')))"
  using assms by (simp add: runCleanup_def resolveName_def extractWorkTreeName_def)

theorem not_in_worktree_is_fatal_first_witness:
  "runCleanup ''linux'' exampleEnv []
     = ([Git_IsInWorktree],
        Some (Wrap ''failed to extract worktree name'' (Err ''not in a worktree'')))"
  using not_in_worktree_is_fatal_first [of "''linux''" exampleEnv]
  by (simp add: exampleEnv_def)

text \<open>
  Claim C4. A run that reaches the teardown phase returns nil, and the last line it
  prints is "Cleanup complete!", whatever the removal of the git worktree, the removal of
  the directory, the lookup of the repository name and the closing of the window answer;
  each of these four calls that is made and fails is reported by its warning, and
  execution proceeds: the calls of Steps 2 and 3 are, in this order, the removal of the
  git worktree and of the directory (when the probe did not report the path absent), the
  question \<open>tmux.IsInTmux()\<close>, and, in a tmux session, the lookup of the repository name
  and the closing of the window, whichever of them failed; the final notice and the
  release of the context end the run.
\<close>

theorem teardown_always_completes:
  assumes "reachesTeardown goos e args"
  shows "snd (runCleanup goos e args) = None
    \<and> printed (fst (runCleanup goos e args)) \<noteq> []
    \<and> last (printed (fst (runCleanup goos e args))) = ''Cleanup complete!''
    \<and> (\<forall>p er. Git_RemoveWorktreeWithContext p \<in> set (fst (runCleanup goos e args))
           \<and> removeWorktree e p = Some er
         \<longrightarrow> Fmt_Print (''Warning: Failed to remove worktree: '' @ errorString er)
               \<in> set (fst (runCleanup goos e args)))
    \<and> (\<forall>p er. Os_RemoveAll p \<in> set (fst (runCleanup goos e args))
           \<and> removeAll e p = Some er
         \<longrightarrow> Fmt_Print (''Warning: Failed to remove worktree directory: '' @ errorString er)
               \<in> set (fst (runCleanup goos e args)))
    \<and> (\<forall>er. Git_GetRepoName \<in> set (fst (runCleanup goos e args))
           \<and> getRepoName e = Inl er
         \<longrightarrow> Fmt_Print (''Warning: Failed to get repository name: '' @ errorString er)
               \<in> set (fst (runCleanup goos e args)))
    \<and> (\<forall>w n er. Tmux_CloseWindow w n \<in> set (fst (runCleanup goos e args))
           \<and> closeWindow e w n = Some er
         \<longrightarrow> Fmt_Print (''Warning: '' @ errorString er)
               \<in> set (fst (runCleanup goos e args)))
    \<and> (\<exists>name root.
          snd (resolveName e args) = Inr name \<and> getMainRepoRoot e = Inr root
          \<and> filter isTeardownCall (fst (runCleanup goos e args))
              = (if stat e (filepath_Join [root, ''.koh'', name]) \<noteq> StatNotExist
                 then [Git_RemoveWorktreeWithContext (filepath_Join [root, ''.koh'', name]),
                       Os_RemoveAll (filepath_Join [root, ''.koh'', name])]
                 else [])
                @ Tmux_IsInTmux #
                (if isInTmux e
                 then [Git_GetRepoName,
                       Tmux_CloseWindow
                         ((case getRepoName e of Inl er \<Rightarrow> [] | Inr r \<Rightarrow> r) @ ''|'' @ name)
                         name]
                 else []))
    \<and> (\<exists>pre. fst (runCleanup goos e args)
                = pre @ [Fmt_Print ''Cleanup complete!'', Signals_cleanup])"
proof -
  from assms obtain name root where
    name: "snd (resolveName e args) = Inr name" and root: "getMainRepoRoot e = Inr root"
    by (rule reaches_names)
  let ?p = "filepath_Join [root, ''.koh'', name]"
  let ?ex = "stat e ?p \<noteq> StatNotExist"
  let ?tr = "fst (runCleanup goos e args)"
  note eq = runCleanup_reached [OF assms name root]
  note sub = teardown_in_run [OF assms name root]
  have origin: "ev \<in> set (step2 e name ?p ?ex) \<union> set (step3 e name)"
    if "ev \<in> set ?tr" and "isTeardownCall ev" for ev
    using teardown_call_origin [OF that] name root that(2) by (auto simp: set_teardown)
  have a: "snd (runCleanup goos e args) = None" by (simp add: eq)
  have b: "printed ?tr \<noteq> [] \<and> last (printed ?tr) = ''Cleanup complete!''"
    by (simp add: eq printed_append teardown_def)
  have c: "Fmt_Print (''Warning: Failed to remove worktree: '' @ errorString er) \<in> set ?tr"
    if "Git_RemoveWorktreeWithContext q \<in> set ?tr" and "removeWorktree e q = Some er" for q er
  proof -
    from origin [OF that(1)] have "?ex \<and> q = ?p"
      using step3_only [of "Git_RemoveWorktreeWithContext q" e name]
      by (auto simp: step2_vcs_iff)
    with that(2) show ?thesis using sub step2_warn_vcs [of ?ex e ?p er name]
      by (auto simp: set_teardown)
  qed
  have d: "Fmt_Print (''Warning: Failed to remove worktree directory: '' @ errorString er) \<in> set ?tr"
    if "Os_RemoveAll q \<in> set ?tr" and "removeAll e q = Some er" for q er
  proof -
    from origin [OF that(1)] have "?ex \<and> q = ?p"
      using step3_only [of "Os_RemoveAll q" e name]
      by (auto simp: step2_residual_iff)
    with that(2) show ?thesis using sub step2_warn_residual [of ?ex e ?p er name]
      by (auto simp: set_teardown)
  qed
  have f: "Fmt_Print (''Warning: Failed to get repository name: '' @ errorString er) \<in> set ?tr"
    if "Git_GetRepoName \<in> set ?tr" and "getRepoName e = Inl er" for er
  proof -
    from origin [OF that(1)] have "isInTmux e"
      using step2_only [of Git_GetRepoName e name ?p ?ex]
      by (auto simp: step3_repo_iff)
    with that(2) show ?thesis using sub step3_warn_repo [of e er name]
      by (auto simp: set_teardown)
  qed
  have g: "Fmt_Print (''Warning: '' @ errorString er) \<in> set ?tr"
    if "Tmux_CloseWindow w n \<in> set ?tr" and "closeWindow e w n = Some er" for w n er
  proof -
    from origin [OF that(1)] have "Tmux_CloseWindow w n \<in> set (step3 e name)"
      using step2_only [of "Tmux_CloseWindow w n" e name ?p ?ex] by auto
    with that(2) show ?thesis using sub step3_warn_close [of w n e name er]
      by (auto simp: set_teardown)
  qed
  have h: "\<exists>name root.
          snd (resolveName e args) = Inr name \<and> getMainRepoRoot e = Inr root
          \<and> filter isTeardownCall ?tr
              = (if stat e (filepath_Join [root, ''.koh'', name]) \<noteq> StatNotExist
                 then [Git_RemoveWorktreeWithContext (filepath_Join [root, ''.koh'', name]),
                       Os_RemoveAll (filepath_Join [root, ''.koh'', name])]
                 else [])
                @ Tmux_IsInTmux #
                (if isInTmux e
                 then [Git_GetRepoName,
                       Tmux_CloseWindow
                         ((case getRepoName e of Inl er \<Rightarrow> [] | Inr r \<Rightarrow> r) @ ''|'' @ name)
                         name]
                 else [])"
    using filter_teardown_run [OF assms name root] name root by blast
  have "?tr = (beforeTeardown e args name root @ step2 e name ?p ?ex @ step3 e name)
                @ [Fmt_Print ''Cleanup complete!'', Signals_cleanup]"
    by (simp add: eq teardown_def)
  then have i: "\<exists>pre. ?tr = pre @ [Fmt_Print ''Cleanup complete!'', Signals_cleanup]"
    by blast
  show ?thesis using a b c d f g h i by blast
qed

theorem teardown_always_completes_witness:
  "reachesTeardown ''linux'' failingStepsEnv [''feat'']
   \<and> snd (runCleanup ''linux'' failingStepsEnv [''feat'']) = None
   \<and> last (printed (fst (runCleanup ''linux'' failingStepsEnv [''feat''])))
       = ''Cleanup complete!''
   \<and> Fmt_Print ''Warning: Failed to remove worktree: worktree is dirty''
       \<in> set (fst (runCleanup ''linux'' failingStepsEnv [''feat'']))
   \<and> Fmt_Print ''Warning: Failed to remove worktree directory: permission denied''
       \<in> set (fst (runCleanup ''linux'' failingStepsEnv [''feat'']))
   \<and> Fmt_Print ''Warning: Failed to get repository name: no remote''
       \<in> set (fst (runCleanup ''linux'' failingStepsEnv [''feat'']))
   \<and> Fmt_Print ''Warning: window not found''
       \<in> set (fst (runCleanup ''linux'' failingStepsEnv [''feat'']))
   \<and> filter isTeardownCall (fst (runCleanup ''linux'' failingStepsEnv [''feat'']))
       = [Git_RemoveWorktreeWithContext ''/repo/.koh/feat'', Os_RemoveAll ''/repo/.koh/feat'',
          Tmux_IsInTmux, Git_GetRepoName, Tmux_CloseWindow ''|feat'' ''feat'']"
proof -
  let ?tr = "fst (runCleanup ''linux'' failingStepsEnv [''feat''])"
  have r: "reachesTeardown ''linux'' failingStepsEnv [''feat'']"
    by code_simp
  have calls: "Git_RemoveWorktreeWithContext ''/repo/.koh/feat'' \<in> set ?tr"
    "Os_RemoveAll ''/repo/.koh/feat'' \<in> set ?tr"
    "Git_GetRepoName \<in> set ?tr"
    "Tmux_CloseWindow ''|feat'' ''feat'' \<in> set ?tr"
    by code_simp+
  have answers: "removeWorktree failingStepsEnv ''/repo/.koh/feat'' = Some (Err ''worktree is dirty'')"
    "removeAll failingStepsEnv ''/repo/.koh/feat'' = Some (Err ''permission denied'')"
    "getRepoName failingStepsEnv = Inl (Err ''no remote'')"
    "closeWindow failingStepsEnv ''|feat'' ''feat'' = Some (Err ''window not found'')"
    by (simp_all add: failingStepsEnv_def)
  note t = teardown_always_completes [OF r]
  from t have "snd (runCleanup ''linux'' failingStepsEnv [''feat'']) = None"
    and "last (printed ?tr) = ''Cleanup complete!''"
    by blast+
  moreover from t calls(1) answers(1)
  have "Fmt_Print (''Warning: Failed to remove worktree: '' @ errorString (Err ''worktree is dirty''))
          \<in> set ?tr" by blast
  moreover from t calls(2) answers(2)
  have "Fmt_Print (''Warning: Failed to remove worktree directory: ''
                    @ errorString (Err ''permission denied'')) \<in> set ?tr" by blast
  moreover from t calls(3) answers(3)
  have "Fmt_Print (''Warning: Failed to get repository name: '' @ errorString (Err ''no remote''))
          \<in> set ?tr" by blast
  moreover from t calls(4) answers(4)
  have "Fmt_Print (''Warning: '' @ errorString (Err ''window not found'')) \<in> set ?tr" by blast
  moreover have "filter isTeardownCall ?tr
       = [Git_RemoveWorktreeWithContext ''/repo/.koh/feat'', Os_RemoveAll ''/repo/.koh/feat'',
          Tmux_IsInTmux, Git_GetRepoName, Tmux_CloseWindow ''|feat'' ''feat'']"
  proof -
    from t obtain name root where
      n: "snd (resolveName failingStepsEnv [''feat'']) = Inr name" and
      ro: "getMainRepoRoot failingStepsEnv = Inr root" and
      fl: "filter isTeardownCall ?tr
            = (if stat failingStepsEnv (filepath_Join [root, ''.koh'', name]) \<noteq> StatNotExist
               then [Git_RemoveWorktreeWithContext (filepath_Join [root, ''.koh'', name]),
                     Os_RemoveAll (filepath_Join [root, ''.koh'', name])]
               else [])
              @ Tmux_IsInTmux #
              (if isInTmux failingStepsEnv
               then [Git_GetRepoName,
                     Tmux_CloseWindow
                       ((case getRepoName failingStepsEnv of Inl er \<Rightarrow> [] | Inr r \<Rightarrow> r)
                        @ ''|'' @ name) name]
               else [])"
      by blast
    from n have name: "name = ''feat''" by (simp add: resolveName_def)
    from ro have root: "root = ''/repo''" by (simp add: failingStepsEnv_def exampleEnv_def)
    have j: "filepath_Join [''/repo'', ''.koh'', ''feat''] = ''/repo/.koh/feat''"
      by code_simp
    have st: "stat failingStepsEnv ''/repo/.koh/feat'' = StatOk"
      and tm: "isInTmux failingStepsEnv"
      by (simp_all add: failingStepsEnv_def exampleEnv_def)
    show ?thesis using fl by (simp add: name root j st tm answers(3))
  qed
  ultimately show ?thesis using r by simp
qed

text \<open>
  Claim C1. When the current directory is the target worktree or lies below it, the
  directory is changed to the main repository root before any removal call. The code
  decides "inside" by \<open>!strings.HasPrefix(rel, "..")\<close>, which also rejects a directory
  below the worktree whose first element merely begins with two dots. Started in
  \<open>/repo/.koh/feat/..cache\<close>, the run removes the worktree \<open>/repo/.koh/feat\<close> and its
  directory and never calls \<open>os.Chdir\<close>.
\<close>

theorem removal_from_inside_without_chdir:
  "insideTarget ''/repo/.koh/feat'' ''/repo/.koh/feat/..cache''
   \<and> filepath_Rel ''/repo/.koh/feat'' ''/repo/.koh/feat/..cache'' = Inr ''..cache''
   \<and> runCleanup ''linux'' dotdotEnv [''feat''] =
       ([Validation_ValidateWorktreeName ''feat'', Signals_SetupCancellableContext,
         Git_GetMainRepoRoot, Filepath_Join [''/repo'', ''.koh'', ''feat''],
         Os_Stat ''/repo/.koh/feat'', Os_Getwd,
         Filepath_Abs ''/repo/.koh/feat/..cache'', Filepath_Abs ''/repo/.koh/feat'',
         Filepath_Rel ''/repo/.koh/feat'' ''/repo/.koh/feat/..cache'',
         Fmt_Print ''Removing git worktree: .koh/feat'',
         Git_RemoveWorktreeWithContext ''/repo/.koh/feat'',
         Fmt_Print ''Worktree removed successfully'',
         Os_RemoveAll ''/repo/.koh/feat'', Tmux_IsInTmux, Git_GetRepoName,
         Tmux_CloseWindow ''myrepo|feat'' ''feat'',
         Fmt_Print ''Tmux window closed (switched to previous window)'',
         Fmt_Print ''Cleanup complete!'', Signals_cleanup], None)"
  by code_simp

text \<open>
  Claim C2, as amended. In a run that reaches the teardown phase the recursive removal of
  the worktree path is attempted whenever the probe did not report the path absent,
  whatever the removal of the git worktree answered; when the probe reported the path
  absent, neither the git worktree removal nor the directory removal is attempted.
\<close>

theorem residual_removal_follows_probe:
  assumes reach: "reachesTeardown goos e args"
    and name: "snd (resolveName e args) = Inr name" and root: "getMainRepoRoot e = Inr root"
  shows "(stat e (filepath_Join [root, ''.koh'', name]) \<noteq> StatNotExist \<longrightarrow>
            Os_RemoveAll (filepath_Join [root, ''.koh'', name])
              \<in> set (fst (runCleanup goos e args)))
       \<and> (stat e (filepath_Join [root, ''.koh'', name]) = StatNotExist \<longrightarrow>
            filter isResidualRemoval (fst (runCleanup goos e args)) = []
          \<and> filter isVcsRemoval (fst (runCleanup goos e args)) = [])"
proof -
  let ?p = "filepath_Join [root, ''.koh'', name]"
  have "Os_RemoveAll ?p \<in> set (fst (runCleanup goos e args))" if "stat e ?p \<noteq> StatNotExist"
    using teardown_in_run [OF reach name root] that
    by (auto simp: set_teardown step2_residual_iff)
  moreover have "filter isResidualRemoval (fst (runCleanup goos e args)) = []
      \<and> filter isVcsRemoval (fst (runCleanup goos e args)) = []"
    if "stat e ?p = StatNotExist"
    using no_vcs_removal_when_absent [OF name root that]
    by (auto simp: filter_empty_conv)
  ultimately show ?thesis by blast
qed

theorem residual_removal_follows_probe_witness:
  "Os_RemoveAll ''/repo/.koh/feat'' \<in> set (fst (runCleanup ''linux'' failingStepsEnv [''feat'']))
   \<and> filter isResidualRemoval (fst (runCleanup ''linux'' absentEnv [''feat''])) = []
   \<and> filter isVcsRemoval (fst (runCleanup ''linux'' absentEnv [''feat''])) = []"
proof -
  have j: "filepath_Join [''/repo'', ''.koh'', ''feat''] = ''/repo/.koh/feat''"
    by code_simp
  have r1: "reachesTeardown ''linux'' failingStepsEnv [''feat'']"
    and r2: "reachesTeardown ''linux'' absentEnv [''feat'']"
    by code_simp+
  have n1: "snd (resolveName failingStepsEnv [''feat'']) = Inr ''feat''"
    and n2: "snd (resolveName absentEnv [''feat'']) = Inr ''feat''"
    by (simp_all add: resolveName_def)
  have g1: "getMainRepoRoot failingStepsEnv = Inr ''/repo''"
    and g2: "getMainRepoRoot absentEnv = Inr ''/repo''"
    by (simp_all add: failingStepsEnv_def absentEnv_def exampleEnv_def)
  have s1: "stat failingStepsEnv ''/repo/.koh/feat'' \<noteq> StatNotExist"
    and s2: "stat absentEnv ''/repo/.koh/feat'' = StatNotExist"
    by (simp_all add: failingStepsEnv_def absentEnv_def exampleEnv_def)
  show ?thesis
    using residual_removal_follows_probe [OF r1 n1 g1]
          residual_removal_follows_probe [OF r2 n2 g2] s1 s2
    by (simp add: j)
qed

text \<open>
  The claim as stated fails: with the path absent the run reaches the teardown phase and
  makes no call of \<open>os.RemoveAll\<close>.
\<close>

theorem residual_removal_skipped_when_absent:
  "reachesTeardown ''linux'' absentEnv [''feat'']
   \<and> filter isResidualRemoval (fst (runCleanup ''linux'' absentEnv [''feat''])) = []"
  by code_simp

text \<open>
  Claim C5, as amended. When the computed worktree path does not exist, no removal of the
  git worktree is attempted; the absence is reported by a warning and does not change the
  error result of the run (it is the result the run would have had with the path
  present); and if the run reaches the teardown phase, that is, locating the current
  directory and leaving the worktree do not fail, and a tmux session is active, the
  closing of the window is attempted.
\<close>

theorem absent_worktree_still_closes_window:
  assumes g: "goos \<noteq> ''windows''" and name: "snd (resolveName e args) = Inr name"
    and v: "validateWorktreeName e name = None" and root: "getMainRepoRoot e = Inr root"
    and absent: "stat e (filepath_Join [root, ''.koh'', name]) = StatNotExist"
  shows "filter isVcsRemoval (fst (runCleanup goos e args)) = []
    \<and> (reachesTeardown goos e args \<and> isInTmux e \<longrightarrow>
         Tmux_CloseWindow ((case getRepoName e of Inl er \<Rightarrow> [] | Inr r \<Rightarrow> r) @ ''|'' @ name) name
           \<in> set (fst (runCleanup goos e args)))
    \<and> Fmt_Print (''Warning: Worktree .koh/'' @ name @ '' not found'')
         \<in> set (fst (runCleanup goos e args))
    \<and> snd (runCleanup goos e args) = snd (runCleanup goos (e\<lparr>stat := \<lambda>p. StatOk\<rparr>) args)"
proof -
  let ?p = "filepath_Join [root, ''.koh'', name]"
  let ?tr = "fst (runCleanup goos e args)"
  have a: "filter isVcsRemoval ?tr = []"
    using no_vcs_removal_when_absent [OF name root absent]
    by (auto simp: filter_empty_conv)
  have b: "Tmux_CloseWindow ((case getRepoName e of Inl er \<Rightarrow> [] | Inr r \<Rightarrow> r) @ ''|'' @ name) name
           \<in> set ?tr" if "reachesTeardown goos e args" and "isInTmux e"
    using teardown_in_run [OF that(1) name root] that(2)
    by (auto simp: set_teardown step3_close_iff)
  have c: "Fmt_Print (''Warning: Worktree .koh/'' @ name @ '' not found'') \<in> set ?tr"
    using probe_in_run [OF g name v root] absent by (auto simp: probe_def)
  have d: "snd (runCleanup goos e args) = snd (runCleanup goos (e\<lparr>stat := \<lambda>p. StatOk\<rparr>) args)"
    by (simp add: snd_runCleanup_stat)
  show ?thesis using a b c d by blast
qed

theorem absent_worktree_still_closes_window_witness:
  "filter isVcsRemoval (fst (runCleanup ''linux'' absentEnv [''feat''])) = []
   \<and> Tmux_CloseWindow ''myrepo|feat'' ''feat''
       \<in> set (fst (runCleanup ''linux'' absentEnv [''feat'']))
   \<and> Fmt_Print ''Warning: Worktree .koh/feat not found''
       \<in> set (fst (runCleanup ''linux'' absentEnv [''feat'']))
   \<and> snd (runCleanup ''linux'' absentEnv [''feat''])
       = snd (runCleanup ''linux'' (absentEnv\<lparr>stat := \<lambda>p. StatOk\<rparr>) [''feat''])"
proof -
  have g: "''linux'' \<noteq> ''windows''" by simp
  have n: "snd (resolveName absentEnv [''feat'']) = Inr ''feat''"
    by (simp add: resolveName_def)
  have v: "validateWorktreeName absentEnv ''feat'' = None"
    by (simp add: absentEnv_def exampleEnv_def validateWorktreeName_spec_def)
  have ro: "getMainRepoRoot absentEnv = Inr ''/repo''"
    by (simp add: absentEnv_def exampleEnv_def)
  have st: "stat absentEnv (filepath_Join [''/repo'', ''.koh'', ''feat'']) = StatNotExist"
    by (simp add: absentEnv_def exampleEnv_def)
  have r: "reachesTeardown ''linux'' absentEnv [''feat'']" by code_simp
  have t: "isInTmux absentEnv" and rn: "getRepoName absentEnv = Inr ''myrepo''"
    by (simp_all add: absentEnv_def exampleEnv_def)
  show ?thesis
    using absent_worktree_still_closes_window [OF g n v ro st] r t rn by simp
qed

text \<open>
  The claim as stated fails: the path is absent and a tmux session is active, but
  \<open>os.Getwd\<close> fails after the probe, the run returns that error, and no window is closed.
\<close>

theorem absent_worktree_window_not_closed:
  "stat absentNoCwdEnv (filepath_Join [''/repo'', ''.koh'', ''feat'']) = StatNotExist
   \<and> isInTmux absentNoCwdEnv
   \<and> filter isCloseWindow (fst (runCleanup ''linux'' absentNoCwdEnv [''feat''])) = []
   \<and> runCleanup ''linux'' absentNoCwdEnv [''feat''] =
       ([Validation_ValidateWorktreeName ''feat'', Signals_SetupCancellableContext,
         Git_GetMainRepoRoot, Filepath_Join [''/repo'', ''.koh'', ''feat''],
         Os_Stat ''/repo/.koh/feat'',
         Fmt_Print ''Warning: Worktree .koh/feat not found'',
         Fmt_Print ''Will attempt to clean up tmux window only'',
         Os_Getwd, Signals_cleanup],
        Some (Wrap ''failed to get current directory''
               (Err ''getwd: no such file or directory'')))"
  by code_simp

text \<open>
  Claim C8. Whenever a run asks tmux to close a window, the window name it passes is the
  repository name, a bar and the worktree name, in that order, where the repository name
  is the empty string if its lookup failed; and when the lookup is made and fails, the
  closing of the window named by the bar and the worktree name is still attempted.
\<close>

theorem window_name_is_repo_bar_worktree:
  "(\<forall>w n. Tmux_CloseWindow w n \<in> set (fst (runCleanup goos e args)) \<longrightarrow>
      snd (resolveName e args) = Inr n
      \<and> w = (case getRepoName e of Inl er \<Rightarrow> [] | Inr r \<Rightarrow> r) @ ''|'' @ n)
   \<and> (\<forall>er. Git_GetRepoName \<in> set (fst (runCleanup goos e args)) \<and> getRepoName e = Inl er \<longrightarrow>
        (\<exists>n. snd (resolveName e args) = Inr n
           \<and> Tmux_CloseWindow (''|'' @ n) n \<in> set (fst (runCleanup goos e args))))"
proof -
  let ?tr = "fst (runCleanup goos e args)"
  have a: "snd (resolveName e args) = Inr n
      \<and> w = (case getRepoName e of Inl er \<Rightarrow> [] | Inr r \<Rightarrow> r) @ ''|'' @ n"
    if "Tmux_CloseWindow w n \<in> set ?tr" for w n
  proof -
    from teardown_call_origin [OF that] obtain name root where
      name: "snd (resolveName e args) = Inr name" and
      "Tmux_CloseWindow w n \<in> set (teardown e name (filepath_Join [root, ''.koh'', name])
          (stat e (filepath_Join [root, ''.koh'', name]) \<noteq> StatNotExist))"
      by auto
    then have "Tmux_CloseWindow w n \<in> set (step3 e name)"
      using step2_only [of "Tmux_CloseWindow w n" e name] by (auto simp: set_teardown)
    then show ?thesis using name by (auto simp: step3_close_iff)
  qed
  have b: "\<exists>n. snd (resolveName e args) = Inr n \<and> Tmux_CloseWindow (''|'' @ n) n \<in> set ?tr"
    if "Git_GetRepoName \<in> set ?tr" and "getRepoName e = Inl er" for er
  proof -
    from teardown_call_origin [OF that(1)] obtain name root where
      reach: "reachesTeardown goos e args" and
      name: "snd (resolveName e args) = Inr name" and root: "getMainRepoRoot e = Inr root" and
      "Git_GetRepoName \<in> set (teardown e name (filepath_Join [root, ''.koh'', name])
          (stat e (filepath_Join [root, ''.koh'', name]) \<noteq> StatNotExist))"
      by auto
    then have "isInTmux e"
      using step2_only [of Git_GetRepoName e name] by (auto simp: set_teardown step3_repo_iff)
    then have "Tmux_CloseWindow (''|'' @ name) name \<in> set ?tr"
      using teardown_in_run [OF reach name root] that(2)
      by (auto simp: set_teardown step3_close_iff)
    then show ?thesis using name by blast
  qed
  show ?thesis using a b by blast
qed

theorem window_name_is_repo_bar_worktree_witness:
  "Git_GetRepoName \<in> set (fst (runCleanup ''linux'' failingStepsEnv [''feat'']))
   \<and> getRepoName failingStepsEnv = Inl (Err ''no remote'')
   \<and> (\<exists>n. snd (resolveName failingStepsEnv [''feat'']) = Inr n
          \<and> Tmux_CloseWindow (''|'' @ n) n
              \<in> set (fst (runCleanup ''linux'' failingStepsEnv [''feat''])))
   \<and> Tmux_CloseWindow ''myrepo|feat'' ''feat''
       \<in> set (fst (runCleanup ''linux'' exampleEnv [''feat'']))
   \<and> ''myrepo|feat'' = (case getRepoName exampleEnv of Inl er \<Rightarrow> [] | Inr r \<Rightarrow> r) @ ''|'' @ ''feat''"
proof -
  have c: "Git_GetRepoName \<in> set (fst (runCleanup ''linux'' failingStepsEnv [''feat'']))"
    and w: "Tmux_CloseWindow ''myrepo|feat'' ''feat''
              \<in> set (fst (runCleanup ''linux'' exampleEnv [''feat'']))"
    by code_simp+
  have f: "getRepoName failingStepsEnv = Inl (Err ''no remote'')"
    by (simp add: failingStepsEnv_def)
  from window_name_is_repo_bar_worktree [of "''linux''" failingStepsEnv "[''feat'']"] c f
  have "\<exists>n. snd (resolveName failingStepsEnv [''feat'']) = Inr n
          \<and> Tmux_CloseWindow (''|'' @ n) n
              \<in> set (fst (runCleanup ''linux'' failingStepsEnv [''feat'']))"
    by blast
  moreover from window_name_is_repo_bar_worktree [of "''linux''" exampleEnv "[''feat'']"] w
  have "''myrepo|feat'' = (case getRepoName exampleEnv of Inl er \<Rightarrow> [] | Inr r \<Rightarrow> r) @ ''|'' @ ''feat''"
    by blast
  ultimately show ?thesis using c w f by blast
qed

text \<open>
  Claim C9. When the current directory is outside the target worktree, the run never
  calls \<open>os.Chdir\<close>. "Outside" is taken in both senses: the absolute current directory is
  neither the absolute target nor below it, or the relative path from the target to it
  begins with \<open>..\<close>.
\<close>

theorem no_chdir_outside_target:
  assumes name: "snd (resolveName e args) = Inr name" and root: "getMainRepoRoot e = Inr root"
    and dir: "getwd e = Inr dir" and cur: "filepath_Abs e dir = Inr cur"
    and target: "filepath_Abs e (filepath_Join [root, ''.koh'', name]) = Inr target"
    and outside: "\<not> insideTarget target cur
       \<or> (\<exists>rel. filepath_Rel target cur = Inr rel \<and> strings_HasPrefix rel ''..'')"
  shows "filter isChdir (fst (runCleanup goos e args)) = []"
proof -
  have loc: "snd (locate e (filepath_Join [root, ''.koh'', name])) = Inr False"
    by (rule locate_outside [OF dir cur target outside])
  have "\<not> isChdir ev" if ev: "ev \<in> set (fst (runCleanup goos e args))" for ev
    using runCleanup_events [OF ev] name root loc
    by (auto simp: step1_False dest: resolveName_calls probe_calls locate_calls teardown_calls)
  then show ?thesis by (auto simp: filter_empty_conv)
qed

theorem no_chdir_outside_target_witness:
  "\<not> insideTarget ''/repo/.koh/feat'' ''/repo''
   \<and> filter isChdir (fst (runCleanup ''linux'' exampleEnv [''feat''])) = []"
proof -
  have n: "snd (resolveName exampleEnv [''feat'']) = Inr ''feat''"
    by (simp add: resolveName_def)
  have ro: "getMainRepoRoot exampleEnv = Inr ''/repo''" and d: "getwd exampleEnv = Inr ''/repo''"
    by (simp_all add: exampleEnv_def)
  have c: "filepath_Abs exampleEnv ''/repo'' = Inr ''/repo''"
    and t: "filepath_Abs exampleEnv (filepath_Join [''/repo'', ''.koh'', ''feat''])
              = Inr ''/repo/.koh/feat''"
    and out: "\<not> insideTarget ''/repo/.koh/feat'' ''/repo''"
    by code_simp+
  from out have o: "\<not> insideTarget ''/repo/.koh/feat'' ''/repo''
      \<or> (\<exists>rel. filepath_Rel ''/repo/.koh/feat'' ''/repo'' = Inr rel \<and> strings_HasPrefix rel ''..'')"
    by blast
  show ?thesis
    using no_chdir_outside_target [OF n ro d c t o, of "''linux''"] out by simp
qed

text \<open>
  Claim C10, as amended. When \<open>os.Stat\<close> on the worktree path fails with an error other
  than "does not exist", the run is the run it would have been had \<open>os.Stat\<close> succeeded:
  the worktree is treated as existing. If the run reaches the teardown phase, it
  attempts both the removal of the git worktree and the removal of the directory.
\<close>

theorem stat_error_counts_as_existing:
  assumes name: "snd (resolveName e args) = Inr name" and root: "getMainRepoRoot e = Inr root"
    and st: "stat e (filepath_Join [root, ''.koh'', name]) = StatOther er"
  shows "runCleanup goos e args
       = runCleanup goos (e\<lparr>stat := (stat e)(filepath_Join [root, ''.koh'', name] := StatOk)\<rparr>) args
    \<and> (reachesTeardown goos e args \<longrightarrow>
         Git_RemoveWorktreeWithContext (filepath_Join [root, ''.koh'', name])
           \<in> set (fst (runCleanup goos e args))
       \<and> Os_RemoveAll (filepath_Join [root, ''.koh'', name])
           \<in> set (fst (runCleanup goos e args)))"
proof -
  let ?p = "filepath_Join [root, ''.koh'', name]"
  let ?e' = "e\<lparr>stat := (stat e)(?p := StatOk)\<rparr>"
  obtain t0 where r: "resolveName e args = (t0, Inr name)"
    using name by (cases "resolveName e args") auto
  have w: "withContext ?e' name = withContext e name"
    using root probe_other [OF st]
    by (simp add: withContext_def Let_def locate_stat step1_stat teardown_stat
             cong: sum.case_cong option.case_cong prod.case_cong)
  have a: "runCleanup goos e args = runCleanup goos ?e' args"
    by (simp add: runCleanup_def resolveName_stat r w cong: option.case_cong)
  have b: "Git_RemoveWorktreeWithContext ?p \<in> set (fst (runCleanup goos e args))
       \<and> Os_RemoveAll ?p \<in> set (fst (runCleanup goos e args))"
    if reach: "reachesTeardown goos e args"
    using teardown_in_run [OF reach name root] st
    by (auto simp: set_teardown step2_vcs_iff step2_residual_iff)
  show ?thesis using a b by blast
qed

theorem stat_error_counts_as_existing_witness:
  "reachesTeardown ''linux'' statDeniedEnv [''feat'']
   \<and> Git_RemoveWorktreeWithContext ''/repo/.koh/feat''
       \<in> set (fst (runCleanup ''linux'' statDeniedEnv [''feat'']))
   \<and> Os_RemoveAll ''/repo/.koh/feat''
       \<in> set (fst (runCleanup ''linux'' statDeniedEnv [''feat'']))"
proof -
  have j: "filepath_Join [''/repo'', ''.koh'', ''feat''] = ''/repo/.koh/feat''"
    by code_simp
  have n: "snd (resolveName statDeniedEnv [''feat'']) = Inr ''feat''"
    by (simp add: resolveName_def)
  have ro: "getMainRepoRoot statDeniedEnv = Inr ''/repo''"
    by (simp add: statDeniedEnv_def exampleEnv_def)
  have st: "stat statDeniedEnv (filepath_Join [''/repo'', ''.koh'', ''feat''])
              = StatOther (Err ''permission denied'')"
    by (simp add: statDeniedEnv_def exampleEnv_def)
  have r: "reachesTeardown ''linux'' statDeniedEnv [''feat'']" by code_simp
  note th = stat_error_counts_as_existing [OF n ro st, of "''linux''", unfolded j]
  from th r show ?thesis by blast
qed

text \<open>
  The claim as stated fails: \<open>os.Stat\<close> fails with "permission denied", then \<open>os.Getwd\<close>
  fails, the run returns that error, and neither removal is attempted.
\<close>

theorem stat_error_then_no_removal:
  "stat statDeniedNoCwdEnv (filepath_Join [''/repo'', ''.koh'', ''feat''])
     = StatOther (Err ''permission denied'')
   \<and> filter isVcsRemoval (fst (runCleanup ''linux'' statDeniedNoCwdEnv [''feat''])) = []
   \<and> filter isResidualRemoval (fst (runCleanup ''linux'' statDeniedNoCwdEnv [''feat''])) = []
   \<and> runCleanup ''linux'' statDeniedNoCwdEnv [''feat''] =
       ([Validation_ValidateWorktreeName ''feat'', Signals_SetupCancellableContext,
         Git_GetMainRepoRoot, Filepath_Join [''/repo'', ''.koh'', ''feat''],
         Os_Stat ''/repo/.koh/feat'', Os_Getwd, Signals_cleanup],
        Some (Wrap ''failed to get current directory''
               (Err ''getwd: no such file or directory'')))"
  by code_simp

end
